theory Spec2Isabelle
  imports Complex_Main
begin

section \<open>The sequencer of embryo-player.js\<close>

text \<open>
  A shallow embedding of the sequencer part of the class \<open>EmbryoPlayer\<close> in
  \<open>src/js/embryo-player.js\<close>: the quantizer (\<open>quantizeTime\<close>), the recorder
  (\<open>recordPadEvent\<close>), the tempo manager (\<open>changeTempo\<close>,
  \<open>recalculateSequenceTiming\<close>), the scheduler (\<open>startSequence\<close>,
  \<open>schedulerTick\<close>, \<open>stopSequence\<close>) and the dispatcher (\<open>triggerScheduled\<close>).

  Conventions of the model.
  \<^item> A JavaScript number that holds a time is a rational number: the arithmetic is
    exact, the rounding of IEEE doubles is not modelled, and neither are \<open>NaN\<close> and the
    infinities. The tempo is an integer, as every writer of \<open>this.bpm\<close> stores one.
    JavaScript's \<open>60 / 0\<close> is \<open>Infinity\<close> where HOL's is \<open>0\<close>, so the definitions
    compute what the source computes for a tempo and a grid other than zero, and every
    theorem that depends on it assumes so; \<open>changeTempo\<close> keeps the tempo in
    \<open>[60, 200]\<close> and \<open>gridStepsPerBeat\<close> is only ever assigned the constant 4.
  \<^item> The object is a record of the fields the sequencer reads and writes. The DOM, the
    terminal output and the Web Audio graph are not part of it.
  \<^item> \<open>audioContext.currentTime\<close> is the field \<open>clock\<close>. \<open>setTimeout\<close> appends to
    the list \<open>timeouts\<close> of pending callbacks, each with the clock value at which it
    becomes due (the two clocks of the browser are taken to run at the same rate);
    \<open>setInterval\<close> and \<open>clearInterval\<close> add and remove a handle in \<open>intervals\<close>.
  \<^item> \<open>playPadCalls\<close> and \<open>dispatched\<close> are traces: the calls of \<open>playPad\<close> and the
    calls of \<open>triggerScheduled\<close> made by the scheduler, in order.
\<close>

subsection \<open>Constants\<close>

definition BEATS_PER_BAR :: int where "BEATS_PER_BAR = 4"
definition MIN_BPM :: int where "MIN_BPM = 60"
definition MAX_BPM :: int where "MAX_BPM = 200"
definition PRE_COUNT_BARS :: int where "PRE_COUNT_BARS = 1"
definition BAR_COUNT :: int where "BAR_COUNT = 4"
definition GRID_STEPS_PER_BEAT :: int where "GRID_STEPS_PER_BEAT = 4"
definition QUANTIZE_STRENGTH :: rat where "QUANTIZE_STRENGTH = 1 / 2"
definition LOOKAHEAD :: rat where "LOOKAHEAD = 25 / 1000"

subsection \<open>JavaScript arithmetic on exact numbers\<close>

text \<open>\<open>Math.round\<close>: the nearest integer, a tie going towards plus infinity.\<close>

definition js_round :: "rat \<Rightarrow> int" where
  "js_round x = \<lfloor>x + 1 / 2\<rfloor>"

text \<open>Rounding towards zero, used by the remainder.\<close>

definition js_trunc :: "rat \<Rightarrow> int" where
  "js_trunc x = (if 0 \<le> x then \<lfloor>x\<rfloor> else \<lceil>x\<rceil>)"

text \<open>
  The operator \<open>%\<close> on numbers: the remainder of the division truncated towards zero,
  so the result has the sign of the dividend. (For a divisor \<open>0\<close> JavaScript gives
  \<open>NaN\<close>; the definition is used with a divisor other than zero only.)
\<close>

definition js_rem :: "rat \<Rightarrow> rat \<Rightarrow> rat" where
  "js_rem a b = a - b * of_int (js_trunc (a / b))"

text \<open>
  \<open>x.toFixed(3)\<close>: the sign and the number of thousandths nearest to the magnitude,
  a tie going to the larger one. The string keeps the sign of a negative number that
  rounds to zero (\<open>"-0.000"\<close>), so the sign is part of the result.
\<close>

definition toFixed3 :: "rat \<Rightarrow> bool \<times> int" where
  "toFixed3 x = (x < 0, \<lfloor>\<bar>x\<bar> * 1000 + 1 / 2\<rfloor>)"

subsection \<open>Events and the player object\<close>

text \<open>
  The object literal pushed by \<open>recordPadEvent\<close>. A missing \<open>originalTime\<close>
  (\<open>undefined\<close>) is \<open>None\<close>; a missing \<open>overdubbed\<close> is \<open>False\<close>; a missing or
  empty \<open>bank\<close> (falsy in JavaScript) is the empty string.
\<close>

record event =
  pad :: nat
  time :: rat
  bank :: string
  originalTime :: "rat option"
  quantized :: bool
  overdubbed :: bool

text \<open>
  The key of the de-duplication set, the template string
  \<open>`${ev.pad}-${ev.bank || this.currentBank}-${when.toFixed(3)}`\<close>, kept as its three
  components.
\<close>

type_synonym event_key = "nat \<times> string \<times> (bool \<times> int)"

text \<open>
  The callbacks that the sequencer hands to \<open>setTimeout\<close>: the removal of a key from
  the de-duplication set, the switch back to a bank, the restart of the sequence after a
  tempo change, and the closure \<open>preCount\<close> of \<open>startPrecount\<close> with the two variables
  it captures (the beats that remain and the beat duration, \<open>beatDur\<close> below).
\<close>

datatype timeout_action =
    DeleteKey event_key
  | SelectBank string
  | StartSequence
  | PreCount int rat

record player =
  bpm :: int
  currentBar :: int
  currentBeat :: int
  sequence :: "event list list"
  sequenceStartTime :: rat
  nextNoteTime :: rat
  isPlaying :: bool
  isRecording :: bool
  isOverdubbing :: bool
  overdubStartTime :: rat
  schedulerTimer :: "nat option"
  metronomeInterval :: "nat option"
  beatInterval :: "nat option"
  barAdvancementInterval :: "nat option"
  currentBank :: string
  scheduledEvents :: "event_key set"
  quantizeMode :: bool
  quantizeStrength :: rat
  gridStepsPerBeat :: int
  performanceMode :: bool
  isEditMode :: bool
  deletePadMode :: bool
  clock :: rat
  timeouts :: "(rat \<times> timeout_action) list"
  intervals :: "nat list"
  nextTimerId :: nat
  playPadCalls :: "(nat \<times> rat) list"
  dispatched :: "(event \<times> rat) list"

subsection \<open>Durations\<close>

definition barDuration :: "player \<Rightarrow> rat" where
  "barDuration st = (60 / of_int (bpm st)) * of_int BEATS_PER_BAR"

definition beatDuration :: "player \<Rightarrow> rat" where
  "beatDuration st = 60 / of_int (bpm st)"

subsection \<open>The quantizer\<close>

definition quantizeTime :: "player \<Rightarrow> rat \<Rightarrow> rat" where
  "quantizeTime st t =
     (let beatDuration = 60 / of_int (bpm st);
          stepDuration = beatDuration / of_int (gridStepsPerBeat st);
          stepIndex = js_round (t / stepDuration);
          quantizedTime = of_int stepIndex * stepDuration;
          finalTime = t + (quantizedTime - t) * quantizeStrength st
      in js_rem finalTime (beatDuration * of_int BEATS_PER_BAR))"

text \<open>The local \<open>stepDuration\<close> of \<open>quantizeTime\<close>, named for the proofs.\<close>

definition stepDuration :: "player \<Rightarrow> rat" where
  "stepDuration st = 60 / of_int (bpm st) / of_int (gridStepsPerBeat st)"

subsection \<open>Timers\<close>

text \<open>
  \<open>setTimeout(f, ms)\<close> queues the callback; it is due \<open>ms\<close> milliseconds after the
  current clock value. \<open>setInterval\<close> hands out a fresh handle and keeps it alive until
  \<open>clearInterval\<close> removes it.
\<close>

definition setTimeout :: "timeout_action \<Rightarrow> rat \<Rightarrow> player \<Rightarrow> player" where
  "setTimeout f ms st = st\<lparr>timeouts := timeouts st @ [(clock st + ms / 1000, f)]\<rparr>"

definition setInterval :: "player \<Rightarrow> nat \<times> player" where
  "setInterval st =
     (nextTimerId st,
      st\<lparr>intervals := intervals st @ [nextTimerId st], nextTimerId := nextTimerId st + 1\<rparr>)"

definition clearInterval :: "nat \<Rightarrow> player \<Rightarrow> player" where
  "clearInterval h st = st\<lparr>intervals := removeAll h (intervals st)\<rparr>"

subsection \<open>Banks and modes\<close>

definition exitEditMode :: "player \<Rightarrow> player" where
  "exitEditMode st = st\<lparr>isEditMode := False\<rparr>"

definition deactivateDeletePadMode :: "player \<Rightarrow> player" where
  "deactivateDeletePadMode st = st\<lparr>deletePadMode := False\<rparr>"

definition selectBank :: "string \<Rightarrow> player \<Rightarrow> player" where
  "selectBank b st =
     (if currentBank st = b then st
      else let st1 = st\<lparr>currentBank := b\<rparr>;
               st2 = (if deletePadMode st1 then deactivateDeletePadMode st1 else st1)
           in if isEditMode st2 then exitEditMode st2 else st2)"

subsection \<open>The dispatcher\<close>

text \<open>
  \<open>playPad(padNumber, when)\<close> belongs to the audio side: it validates the pad, builds an
  audio source and starts it at \<open>when\<close>. The model keeps the call itself. (While
  \<open>isRecording\<close> holds, \<open>playPad\<close> also asks for \<open>recordPadEvent\<close> to run in a later
  animation frame; that later call is a separate step, \<open>recordPadEvent\<close> below.)
\<close>

definition playPad :: "nat \<Rightarrow> rat \<Rightarrow> player \<Rightarrow> player" where
  "playPad padNumber when st = st\<lparr>playPadCalls := playPadCalls st @ [(padNumber, when)]\<rparr>"

definition eventKey :: "player \<Rightarrow> event \<Rightarrow> rat \<Rightarrow> event_key" where
  "eventKey st ev when =
     (pad ev, (if bank ev \<noteq> [] then bank ev else currentBank st), toFixed3 when)"

definition triggerScheduled :: "event \<Rightarrow> rat \<Rightarrow> player \<Rightarrow> player" where
  "triggerScheduled ev when st =
     (let key = eventKey st ev when
      in if key \<in> scheduledEvents st then st
         else
           let st1 = st\<lparr>scheduledEvents := insert key (scheduledEvents st)\<rparr>;
               st2 = setTimeout (DeleteKey key) 1000 st1;
               originalBank = currentBank st2;
               st3 = (if bank ev \<noteq> [] \<and> bank ev \<noteq> originalBank
                      then selectBank (bank ev) st2 else st2);
               st4 = playPad (pad ev) when st3
           in if bank ev \<noteq> [] \<and> bank ev \<noteq> originalBank
              then setTimeout (SelectBank originalBank) 0 st4 else st4)"

subsection \<open>Starting and stopping the scheduler\<close>

text \<open>
  \<open>cleanupActiveSources\<close> stops the audio sources, which are outside the model, and
  clears the de-duplication set.
\<close>

definition cleanupActiveSources :: "player \<Rightarrow> player" where
  "cleanupActiveSources st = st\<lparr>scheduledEvents := {}\<rparr>"

definition stopTimers :: "player \<Rightarrow> player" where
  "stopTimers st =
     (let st1 = (case metronomeInterval st of
                   Some h \<Rightarrow> (clearInterval h st)\<lparr>metronomeInterval := None\<rparr>
                 | None \<Rightarrow> st);
          st2 = (case beatInterval st1 of
                   Some h \<Rightarrow> (clearInterval h st1)\<lparr>beatInterval := None\<rparr>
                 | None \<Rightarrow> st1)
      in case barAdvancementInterval st2 of
           Some h \<Rightarrow> (clearInterval h st2)\<lparr>barAdvancementInterval := None\<rparr>
         | None \<Rightarrow> st2)"

definition startSequence :: "player \<Rightarrow> player" where
  "startSequence st =
     (let st1 = cleanupActiveSources st;
          st2 = st1\<lparr>isPlaying := True,
                    sequenceStartTime := clock st1 + 5 / 100\<rparr>;
          st3 = st2\<lparr>nextNoteTime := sequenceStartTime st2,
                    currentBar := 0,
                    currentBeat := 1\<rparr>;
          (h, st4) = setInterval st3
      in st4\<lparr>schedulerTimer := Some h\<rparr>)"

definition stopSequence :: "player \<Rightarrow> player" where
  "stopSequence st =
     (let st1 = (case schedulerTimer st of
                   Some h \<Rightarrow> (clearInterval h st)\<lparr>schedulerTimer := None\<rparr>
                 | None \<Rightarrow> st);
          st2 = st1\<lparr>isPlaying := False, isRecording := False\<rparr>;
          st3 = stopTimers st2;
          st4 = cleanupActiveSources st3;
          st5 = st4\<lparr>scheduledEvents := {}\<rparr>;
          st6 = (if isEditMode st5 then exitEditMode st5 else st5);
          st7 = st6\<lparr>currentBar := 0, currentBeat := 1\<rparr>
      in if \<not> performanceMode st7 then st7\<lparr>performanceMode := True\<rparr> else st7)"

subsection \<open>The scheduler tick\<close>

text \<open>
  Reading \<open>this.sequence[i]\<close>: \<open>undefined\<close> (here \<open>None\<close>) outside the array.
\<close>

definition sequence_at :: "event list list \<Rightarrow> int \<Rightarrow> event list option" where
  "sequence_at s i = (if 0 \<le> i \<and> i < int (length s) then Some (s ! nat i) else None)"






subsection \<open>The tempo manager\<close>

definition hasRecordedSequence :: "player \<Rightarrow> bool" where
  "hasRecordedSequence st = list_ex (\<lambda>bar. bar \<noteq> []) (sequence st)"

text \<open>
  The two nested \<open>forEach\<close> loops of \<open>recalculateSequenceTiming\<close>; \<open>ratio\<close> is
  \<open>bpmRatio\<close>. The events are objects that belong to one bar each (every one is created
  by a \<open>push\<close> of a fresh literal in \<open>recordPadEvent\<close>), so updating them in place is
  updating the lists.
\<close>

primrec rescale_events :: "rat \<Rightarrow> event list \<Rightarrow> event list" where
  "rescale_events ratio [] = []"
| "rescale_events ratio (e # es) =
     e\<lparr>time := time e * ratio,
       originalTime := (case originalTime e of
                          Some t \<Rightarrow> Some (t * ratio)
                        | None \<Rightarrow> None)\<rparr>
     # rescale_events ratio es"

primrec rescale_sequence :: "rat \<Rightarrow> event list list \<Rightarrow> event list list" where
  "rescale_sequence ratio [] = []"
| "rescale_sequence ratio (bar # bars) =
     (if bar \<noteq> [] then rescale_events ratio bar else bar) # rescale_sequence ratio bars"

text \<open>The counter \<open>eventsRecalculated\<close>: one for every event visited.\<close>

definition eventsRecalculated :: "event list list \<Rightarrow> nat" where
  "eventsRecalculated s = sum_list (map length s)"

definition recalculateSequenceTiming :: "int \<Rightarrow> int \<Rightarrow> player \<Rightarrow> player" where
  "recalculateSequenceTiming oldBPM newBPM st =
     (if oldBPM = newBPM then st
      else
        let bpmRatio = of_int oldBPM / of_int newBPM;
            n = eventsRecalculated (sequence st);
            st1 = st\<lparr>sequence := rescale_sequence bpmRatio (sequence st)\<rparr>
        in if n > 0 \<and> isPlaying st1
           then setTimeout StartSequence 100 (stopSequence st1)
           else st1)"

text \<open>
  \<open>startMetronome\<close> and \<open>startBarAdvancement\<close> as far as the object is concerned when
  they are called: the old handle is cleared, the counters are reset and a new interval
  is installed. What their interval callbacks do on later ticks is not part of the call.
\<close>

definition startMetronome :: "player \<Rightarrow> player" where
  "startMetronome st =
     (let st1 = (case metronomeInterval st of
                   Some h \<Rightarrow> clearInterval h st
                 | None \<Rightarrow> st);
          st2 = st1\<lparr>currentBeat := 1, currentBar := 0\<rparr>;
          (h, st3) = setInterval st2
      in st3\<lparr>metronomeInterval := Some h\<rparr>)"

definition startBarAdvancement :: "player \<Rightarrow> player" where
  "startBarAdvancement st =
     (let st1 = (case beatInterval st of
                   Some h \<Rightarrow> clearInterval h st
                 | None \<Rightarrow> st);
          st2 = st1\<lparr>currentBar := 0, currentBeat := 1\<rparr>;
          (h, st3) = setInterval st2
      in st3\<lparr>beatInterval := Some h\<rparr>)"

definition restartTimers :: "player \<Rightarrow> player" where
  "restartTimers st =
     (let st1 = stopTimers st
      in if isRecording st1 \<or> isPlaying st1
         then startBarAdvancement (if isRecording st1 then startMetronome st1 else st1)
         else st1)"

definition changeTempo :: "int \<Rightarrow> player \<Rightarrow> player" where
  "changeTempo change st =
     (let oldBPM = bpm st;
          st1 = st\<lparr>bpm := max MIN_BPM (min MAX_BPM (bpm st + change))\<rparr>;
          st2 = (if hasRecordedSequence st1
                 then recalculateSequenceTiming oldBPM (bpm st1) st1 else st1)
      in if isRecording st2 \<or> isPlaying st2 then restartTimers st2 else st2)"

subsection \<open>The recorder\<close>

datatype js_error = TypeError

text \<open>
  \<open>this.sequence[this.currentBar].push(...)\<close> throws a \<open>TypeError\<close> when the index is
  outside the array, since the element read is \<open>undefined\<close>.
\<close>

definition recordPadEvent :: "nat \<Rightarrow> player \<Rightarrow> js_error + player" where
  "recordPadEvent padNumber st =
     (let currentTime = clock st;
          relativeTime =
            (if isOverdubbing st
             then js_rem (currentTime - overdubStartTime st)
                    (60 / of_int (bpm st) * of_int BEATS_PER_BAR)
             else js_rem (currentTime - sequenceStartTime st)
                    (60 / of_int (bpm st) * of_int BEATS_PER_BAR));
          quantizedTime = (if quantizeMode st then quantizeTime st relativeTime else relativeTime);
          ev = \<lparr>pad = padNumber, time = quantizedTime, bank = currentBank st,
                originalTime = Some relativeTime, quantized = quantizeMode st,
                overdubbed = isOverdubbing st\<rparr>
      in case sequence_at (sequence st) (currentBar st) of
           None \<Rightarrow> Inl TypeError
         | Some bar \<Rightarrow>
             Inr (st\<lparr>sequence := (sequence st)[nat (currentBar st) := bar @ [ev]]\<rparr>))"

text \<open>
  The time fields of an event multiplied by a factor: what a rescale is meant to do to
  each event.
\<close>

definition scale_event :: "rat \<Rightarrow> event \<Rightarrow> event" where
  "scale_event r e = e\<lparr>time := time e * r, originalTime := map_option (\<lambda>t. t * r) (originalTime e)\<rparr>"

text \<open>The time that \<open>recordPadEvent\<close> stores, as a function of the object.\<close>

definition recorded_time :: "player \<Rightarrow> rat" where
  "recorded_time st =
     (let relativeTime =
            js_rem (clock st - (if isOverdubbing st then overdubStartTime st
                                else sequenceStartTime st))
              (barDuration st)
      in if quantizeMode st then quantizeTime st relativeTime else relativeTime)"

subsection \<open>Starting a recording\<close>

text \<open>
  The model is of a player whose audio context exists (without one, \<open>startRecording\<close>
  only prints a warning). \<open>preCount\<close> is the local function of \<open>startPrecount\<close>; the
  metronome clicks it schedules are audio.
\<close>

definition preCount :: "int \<Rightarrow> rat \<Rightarrow> player \<Rightarrow> player" where
  "preCount preCountRemaining beatDur st =
     (if preCountRemaining > 0
      then setTimeout (PreCount (preCountRemaining - 1) beatDur) (beatDur * 1000) st
      else startBarAdvancement
             (if isOverdubbing st then st else st\<lparr>sequenceStartTime := clock st\<rparr>))"

definition startPrecount :: "player \<Rightarrow> player" where
  "startPrecount st =
     (let st1 = startMetronome st;
          beatDuration = 60 / of_int (bpm st1)
      in preCount (PRE_COUNT_BARS * BEATS_PER_BAR) beatDuration st1)"

definition startRecording :: "player \<Rightarrow> player" where
  "startRecording st =
     (let st1 = (if isPlaying st then st\<lparr>isPlaying := False\<rparr> else st);
          st2 = st1\<lparr>isRecording := True,
                    sequence := replicate (nat BAR_COUNT) [],
                    currentBar := 0,
                    currentBeat := 1\<rparr>
      in startPrecount st2)"

text \<open>
  \<open>startOverdub\<close> needs a sequence with events (otherwise it only prints a warning) and
  measures the recorded times from the clock value at its call.
\<close>

definition startOverdub :: "player \<Rightarrow> player" where
  "startOverdub st =
     (if \<not> hasRecordedSequence st then st
      else
        let st1 = (if isPlaying st then st\<lparr>isPlaying := False\<rparr> else st);
            st2 = st1\<lparr>isRecording := True,
                      isOverdubbing := True,
                      currentBar := 0,
                      currentBeat := 1\<rparr>;
            st3 = st2\<lparr>overdubStartTime := clock st2\<rparr>
        in startPrecount st3)"

definition stopRecording :: "player \<Rightarrow> player" where
  "stopRecording st =
     (let st1 = st\<lparr>isRecording := False\<rparr>;
          st2 = (if isOverdubbing st1 then st1\<lparr>isOverdubbing := False\<rparr> else st1);
          st3 = stopTimers st2
      in if \<not> performanceMode st3 then st3\<lparr>performanceMode := True\<rparr> else st3)"

subsection \<open>Time passing\<close>

text \<open>What a pending callback does when it runs.\<close>

definition fire :: "timeout_action \<Rightarrow> player \<Rightarrow> player" where
  "fire a st =
     (case a of
        DeleteKey k \<Rightarrow> st\<lparr>scheduledEvents := scheduledEvents st - {k}\<rparr>
      | SelectBank b \<Rightarrow> selectBank b st
      | StartSequence \<Rightarrow> startSequence st
      | PreCount n beatDur \<Rightarrow> preCount n beatDur st)"

text \<open>
  The clock advances by \<open>d\<close> and the callbacks that have become due run, the earliest
  first and in the order of their registration among equals. A timeout that one of them
  registers waits for a later step.
\<close>

definition elapse :: "rat \<Rightarrow> player \<Rightarrow> player" where
  "elapse d st =
     (let st1 = st\<lparr>clock := clock st + d\<rparr>;
          due = sort_key fst (filter (\<lambda>(t, a). t \<le> clock st1) (timeouts st1));
          st2 = st1\<lparr>timeouts := filter (\<lambda>(t, a). \<not> t \<le> clock st1) (timeouts st1)\<rparr>
      in fold (\<lambda>(t, a). fire a) due st2)"

subsection \<open>What a tick is meant to dispatch\<close>







subsection \<open>Auxiliary notions for the proofs\<close>

text \<open>The live interval handles after \<open>clearInterval\<close> on a handle that may be null.\<close>

definition drop_handle :: "nat option \<Rightarrow> nat list \<Rightarrow> nat list" where
  "drop_handle h xs = (case h of Some x \<Rightarrow> removeAll x xs | None \<Rightarrow> xs)"

subsection \<open>The object after construction\<close>

definition new_player :: player where
  "new_player =
     \<lparr>bpm = 120, currentBar = 0, currentBeat = 1,
      sequence = [[], [], [], []],
      sequenceStartTime = 0, nextNoteTime = 0,
      isPlaying = False, isRecording = False, isOverdubbing = False,
      overdubStartTime = 0,
      schedulerTimer = None, metronomeInterval = None, beatInterval = None,
      barAdvancementInterval = None,
      currentBank = ''A'', scheduledEvents = {},
      quantizeMode = True, quantizeStrength = QUANTIZE_STRENGTH,
      gridStepsPerBeat = GRID_STEPS_PER_BEAT,
      performanceMode = True, isEditMode = False, deletePadMode = False,
      clock = 0, timeouts = [], intervals = [], nextTimerId = 1,
      playPadCalls = [], dispatched = []\<rparr>"

subsection \<open>Example states\<close>

text \<open>
  An event of pad 3 in bank A at offset \<open>t\<close> of its bar, and a player caught 50 ms after
  \<open>startSequence\<close> (called with the audio clock at 10 s) whose first bar holds three
  such events: at 0 s, at 0.06 s and at 0.5 s.
\<close>

definition example_event :: "rat \<Rightarrow> event" where
  "example_event t =
     \<lparr>pad = 3, time = t, bank = ''A'', originalTime = Some t,
      quantized = False, overdubbed = False\<rparr>"

definition example_playing :: player where
  "example_playing =
     elapse (5 / 100)
       (startSequence
          (new_player\<lparr>clock := 10,
                      sequence := [[example_event 0, example_event (6 / 100),
                                    example_event (1 / 2)], [], [], []]\<rparr>))"


text \<open>
  A player with one recorded event on which \<open>startOverdub\<close> has just been called, with
  the audio clock at 10.5 s.
\<close>

definition example_overdubbing :: player where
  "example_overdubbing =
     startOverdub
       (new_player\<lparr>clock := 21 / 2,
                   sequence := [[example_event (1 / 2)], [], [], []]\<rparr>)"

section \<open>Properties\<close>

subsection \<open>Remainder and rounding\<close>

lemma js_trunc_zero: "\<bar>x\<bar> < 1 \<Longrightarrow> js_trunc x = 0"
  unfolding js_trunc_def by (auto simp: floor_eq_iff ceiling_eq_iff)

lemma js_rem_small:
  assumes "0 < b" and "\<bar>a\<bar> < b"
  shows "js_rem a b = a"
proof -
  have "\<bar>a / b\<bar> < 1"
    using assms by (simp add: abs_if divide_simps split: if_splits)
  then have "js_trunc (a / b) = 0" by (rule js_trunc_zero)
  then show ?thesis by (simp add: js_rem_def)
qed

lemma floor_mult_bounds:
  fixes a b :: rat
  assumes "0 < b"
  shows "of_int \<lfloor>a / b\<rfloor> * b \<le> a" and "a < (of_int \<lfloor>a / b\<rfloor> + 1) * b"
proof -
  define n where "n = \<lfloor>a / b\<rfloor>"
  have lo: "of_int n \<le> a / b" and hi: "a / b < of_int n + 1"
    unfolding n_def by linarith+
  from lo have "of_int n * b \<le> a / b * b"
    using assms by (intro mult_right_mono) auto
  then show "of_int \<lfloor>a / b\<rfloor> * b \<le> a" using assms by (simp add: n_def)
  from hi have "a / b * b < (of_int n + 1) * b"
    using assms by (intro mult_strict_right_mono) auto
  then show "a < (of_int \<lfloor>a / b\<rfloor> + 1) * b" using assms by (simp add: n_def)
qed

lemma ceiling_mult_bounds:
  fixes a b :: rat
  assumes "0 < b"
  shows "a \<le> of_int \<lceil>a / b\<rceil> * b" and "(of_int \<lceil>a / b\<rceil> - 1) * b < a"
proof -
  define n where "n = \<lceil>a / b\<rceil>"
  have hi: "a / b \<le> of_int n" and lo: "of_int n - 1 < a / b"
    unfolding n_def by linarith+
  from hi have "a / b * b \<le> of_int n * b"
    using assms by (intro mult_right_mono) auto
  then show "a \<le> of_int \<lceil>a / b\<rceil> * b" using assms by (simp add: n_def)
  from lo have "(of_int n - 1) * b < a / b * b"
    using assms by (intro mult_strict_right_mono) auto
  then show "(of_int \<lceil>a / b\<rceil> - 1) * b < a" using assms by (simp add: n_def)
qed

text \<open>A dividend that is not negative is wrapped into \<open>[0, b)\<close>.\<close>

lemma js_rem_nonneg_range:
  assumes "0 \<le> a" "0 < b"
  shows "0 \<le> js_rem a b \<and> js_rem a b < b"
proof -
  have "0 \<le> a / b" using assms by simp
  then have tr: "js_trunc (a / b) = \<lfloor>a / b\<rfloor>" by (simp add: js_trunc_def)
  show ?thesis unfolding js_rem_def tr
    using floor_mult_bounds[OF assms(2), of a] by (simp add: algebra_simps)
qed

text \<open>Whatever the sign of the dividend, the magnitude of the remainder is below \<open>b\<close>.\<close>

lemma js_rem_abs_less:
  assumes "0 < b"
  shows "\<bar>js_rem a b\<bar> < b"
proof (cases "0 \<le> a")
  case True
  then show ?thesis using js_rem_nonneg_range[OF True assms] by simp
next
  case False
  then have "a / b < 0" using assms by (simp add: divide_neg_pos)
  then have tr: "js_trunc (a / b) = \<lceil>a / b\<rceil>" by (simp add: js_trunc_def)
  show ?thesis unfolding js_rem_def tr
    using ceiling_mult_bounds[OF assms, of a] by (simp add: algebra_simps abs_if)
qed

text \<open>A negative dividend gives a remainder that is not positive.\<close>

lemma js_rem_neg:
  assumes "a < 0" "0 < b"
  shows "js_rem a b \<le> 0"
proof -
  have "a / b < 0" using assms by (simp add: divide_neg_pos)
  then have tr: "js_trunc (a / b) = \<lceil>a / b\<rceil>" by (simp add: js_trunc_def)
  show ?thesis unfolding js_rem_def tr
    using ceiling_mult_bounds[OF assms(2), of a] by (simp add: algebra_simps)
qed

lemma js_round_of_int: "js_round (of_int m) = m"
  unfolding js_round_def by (simp add: floor_eq_iff)

lemma js_rem_grid_eq:
  "js_rem (of_int m * s) (of_int k * s)
     = of_int (m - k * js_trunc (of_int m * s / (of_int k * s))) * s"
  by (simp add: js_rem_def algebra_simps)

subsection \<open>The quantizer\<close>

lemma stepDuration_pos:
  "0 < bpm st \<Longrightarrow> 0 < gridStepsPerBeat st \<Longrightarrow> 0 < stepDuration st"
  by (simp add: stepDuration_def)

lemma barDuration_pos: "0 < bpm st \<Longrightarrow> 0 < barDuration st"
  by (simp add: barDuration_def BEATS_PER_BAR_def)

lemma barDuration_steps:
  "gridStepsPerBeat st \<noteq> 0 \<Longrightarrow>
     barDuration st = of_int (4 * gridStepsPerBeat st) * stepDuration st"
  by (simp add: barDuration_def stepDuration_def BEATS_PER_BAR_def)

lemma quantizeTime_alt:
  "quantizeTime st t =
     js_rem (t + (of_int (js_round (t / stepDuration st)) * stepDuration st - t)
                  * quantizeStrength st)
       (barDuration st)"
  by (simp only: quantizeTime_def Let_def stepDuration_def barDuration_def)

lemma quantizeTime_strength0:
  assumes "0 < bpm st" "quantizeStrength st = 0" "\<bar>t\<bar> < barDuration st"
  shows "quantizeTime st t = t"
  using assms by (simp add: quantizeTime_alt js_rem_small barDuration_pos)

text \<open>At full strength the result is a whole number of grid steps.\<close>

lemma quantizeTime_strength1_grid:
  assumes "0 < bpm st" "0 < gridStepsPerBeat st" "quantizeStrength st = 1"
  shows "\<exists>m. quantizeTime st t = of_int m * stepDuration st"
proof -
  have "quantizeTime st t =
          js_rem (of_int (js_round (t / stepDuration st)) * stepDuration st)
            (of_int (4 * gridStepsPerBeat st) * stepDuration st)"
    using assms by (simp add: quantizeTime_alt barDuration_steps)
  then show ?thesis unfolding js_rem_grid_eq by blast
qed

lemma quantizeTime_abs_less:
  assumes "0 < bpm st"
  shows "\<bar>quantizeTime st t\<bar> < barDuration st"
  unfolding quantizeTime_alt by (rule js_rem_abs_less) (rule barDuration_pos[OF assms])

lemma quantizeTime_strength1_idem:
  assumes "0 < bpm st" "0 < gridStepsPerBeat st" "quantizeStrength st = 1"
  shows "quantizeTime st (quantizeTime st t) = quantizeTime st t"
proof -
  obtain m where m: "quantizeTime st t = of_int m * stepDuration st"
    using quantizeTime_strength1_grid[OF assms] by blast
  have s: "stepDuration st \<noteq> 0" using stepDuration_pos[OF assms(1,2)] by simp
  have small: "\<bar>of_int m * stepDuration st\<bar> < barDuration st"
    using quantizeTime_abs_less[OF assms(1), of t] by (simp add: m)
  have "quantizeTime st (of_int m * stepDuration st)
          = js_rem (of_int m * stepDuration st) (barDuration st)"
    using assms(3) s by (simp add: quantizeTime_alt js_round_of_int)
  also have "\<dots> = of_int m * stepDuration st"
    using small by (rule js_rem_small[OF barDuration_pos[OF assms(1)]])
  finally show ?thesis by (simp add: m)
qed

lemma quantizeTime_nonneg_range:
  assumes "0 < bpm st" "0 < gridStepsPerBeat st"
      and "0 \<le> quantizeStrength st" "quantizeStrength st \<le> 1" "0 \<le> t"
  shows "0 \<le> quantizeTime st t \<and> quantizeTime st t < barDuration st"
proof -
  define s where "s = stepDuration st"
  define q where "q = of_int (js_round (t / s)) * s"
  define w where "w = quantizeStrength st"
  have spos: "0 < s" unfolding s_def by (rule stepDuration_pos[OF assms(1,2)])
  have "0 \<le> t / s" using assms(5) spos by simp
  then have "0 \<le> js_round (t / s)" by (simp add: js_round_def)
  then have qpos: "0 \<le> q" using spos by (simp add: q_def)
  have "t + (q - t) * w = (1 - w) * t + w * q" by (simp add: algebra_simps)
  moreover have "0 \<le> (1 - w) * t" using assms(4,5) by (simp add: w_def)
  moreover have "0 \<le> w * q" using assms(3) qpos by (simp add: w_def)
  ultimately have "0 \<le> t + (q - t) * w" by linarith
  then show ?thesis
    unfolding quantizeTime_alt using barDuration_pos[OF assms(1)]
    by (simp add: js_rem_nonneg_range q_def s_def w_def)
qed

text \<open>
  Claim C4, as stated: for every input time \<open>t\<close>, quantizing with strength 0 returns
  \<open>t\<close>. It fails for a time beyond the bar: at 120 BPM the bar lasts 2 seconds, and the
  final remainder of \<open>quantizeTime\<close> turns 2.5 into 0.5.
\<close>

theorem C4_strength0_counterexample:
  "quantizeTime (new_player\<lparr>quantizeStrength := 0\<rparr>) (5 / 2) \<noteq> 5 / 2"
  by (simp add: quantizeTime_def new_player_def js_rem_def js_trunc_def js_round_def
      GRID_STEPS_PER_BEAT_def BEATS_PER_BAR_def floor_eq_iff)

text \<open>
  Claim C4, amended: for a tempo and a grid above zero, quantizing with strength 0
  returns \<open>t\<close> unchanged for every \<open>t\<close> of magnitude below the bar duration (so for every
  \<open>t\<close> in \<open>[0, barDuration)\<close>), and quantizing with strength 1 is idempotent for every
  \<open>t\<close>.
\<close>

theorem C4_quantize_extremes:
  assumes "0 < bpm st" and "0 < gridStepsPerBeat st"
  shows "(\<bar>t\<bar> < barDuration st \<longrightarrow> quantizeTime (st\<lparr>quantizeStrength := 0\<rparr>) t = t)
       \<and> quantizeTime (st\<lparr>quantizeStrength := 1\<rparr>) (quantizeTime (st\<lparr>quantizeStrength := 1\<rparr>) t)
           = quantizeTime (st\<lparr>quantizeStrength := 1\<rparr>) t"
proof
  show "\<bar>t\<bar> < barDuration st \<longrightarrow> quantizeTime (st\<lparr>quantizeStrength := 0\<rparr>) t = t"
    using assms(1) quantizeTime_strength0[of "st\<lparr>quantizeStrength := 0\<rparr>" t]
    by (simp add: barDuration_def)
  show "quantizeTime (st\<lparr>quantizeStrength := 1\<rparr>) (quantizeTime (st\<lparr>quantizeStrength := 1\<rparr>) t)
          = quantizeTime (st\<lparr>quantizeStrength := 1\<rparr>) t"
    using assms by (intro quantizeTime_strength1_idem) simp_all
qed

theorem C4_quantize_extremes_witness:
  "0 < bpm new_player \<and> 0 < gridStepsPerBeat new_player
   \<and> \<bar>13 / 10\<bar> < barDuration new_player
   \<and> quantizeTime (new_player\<lparr>quantizeStrength := 0\<rparr>) (13 / 10) = 13 / 10
   \<and> quantizeTime (new_player\<lparr>quantizeStrength := 1\<rparr>)
        (quantizeTime (new_player\<lparr>quantizeStrength := 1\<rparr>) (13 / 10))
       = quantizeTime (new_player\<lparr>quantizeStrength := 1\<rparr>) (13 / 10)"
proof -
  have h1: "0 < bpm new_player" and h2: "0 < gridStepsPerBeat new_player"
    by (simp_all add: new_player_def GRID_STEPS_PER_BEAT_def)
  have h3: "\<bar>13 / 10\<bar> < barDuration new_player"
    by (simp add: new_player_def barDuration_def BEATS_PER_BAR_def)
  show ?thesis
    using C4_quantize_extremes[OF h1 h2, of "13 / 10"] h1 h2 h3 by simp
qed

text \<open>
  Claim C5: for a tempo and a grid above zero, every strength in \<open>[0, 1]\<close> and every
  \<open>t\<close> in \<open>[0, barDuration)\<close>, the result of the quantizer lies in \<open>[0, barDuration)\<close>.
\<close>

theorem C5_quantize_range:
  assumes "0 < bpm st" and "0 < gridStepsPerBeat st"
      and "0 \<le> quantizeStrength st" and "quantizeStrength st \<le> 1"
      and "0 \<le> t" and "t < barDuration st"
  shows "0 \<le> quantizeTime st t \<and> quantizeTime st t < barDuration st"
  using assms(1-5) by (rule quantizeTime_nonneg_range)

text \<open>
  The witness is the case the claim singles out: at 120 BPM and full strength, 1.95 s
  snaps to the grid time 2.0 s, which is the bar length, and the remainder wraps it
  to 0.
\<close>

theorem C5_quantize_range_witness:
  "0 < bpm (new_player\<lparr>quantizeStrength := 1\<rparr>)
   \<and> 0 < gridStepsPerBeat (new_player\<lparr>quantizeStrength := 1\<rparr>)
   \<and> 0 \<le> quantizeStrength (new_player\<lparr>quantizeStrength := 1\<rparr>)
   \<and> quantizeStrength (new_player\<lparr>quantizeStrength := 1\<rparr>) \<le> 1
   \<and> (0::rat) \<le> 39 / 20 \<and> 39 / 20 < barDuration (new_player\<lparr>quantizeStrength := 1\<rparr>)
   \<and> 0 \<le> quantizeTime (new_player\<lparr>quantizeStrength := 1\<rparr>) (39 / 20)
   \<and> quantizeTime (new_player\<lparr>quantizeStrength := 1\<rparr>) (39 / 20)
       < barDuration (new_player\<lparr>quantizeStrength := 1\<rparr>)
   \<and> quantizeTime (new_player\<lparr>quantizeStrength := 1\<rparr>) (39 / 20) = 0"
proof -
  let ?st = "new_player\<lparr>quantizeStrength := 1\<rparr>"
  have h1: "0 < bpm ?st" and h2: "0 < gridStepsPerBeat ?st"
    and h3: "0 \<le> quantizeStrength ?st" and h4: "quantizeStrength ?st \<le> 1"
    by (simp_all add: new_player_def GRID_STEPS_PER_BEAT_def)
  have h5: "(0::rat) \<le> 39 / 20" by simp
  have h6: "39 / 20 < barDuration ?st"
    by (simp add: new_player_def barDuration_def BEATS_PER_BAR_def)
  have v: "quantizeTime ?st (39 / 20) = 0"
    by code_simp
  show ?thesis
    using C5_quantize_range[OF h1 h2 h3 h4 h5 h6] h1 h2 h3 h4 h6 v by simp
qed

subsection \<open>Closed forms of the operations\<close>

lemma drop_handle_None [simp]: "drop_handle None xs = xs"
  by (simp add: drop_handle_def)

lemma stopTimers_eq:
  "stopTimers st =
     st\<lparr>metronomeInterval := None, beatInterval := None, barAdvancementInterval := None,
        intervals := drop_handle (barAdvancementInterval st)
                       (drop_handle (beatInterval st)
                          (drop_handle (metronomeInterval st) (intervals st)))\<rparr>"
  by (cases st) (simp add: stopTimers_def clearInterval_def drop_handle_def Let_def
      split: option.splits)

lemma stopSequence_eq:
  "stopSequence st =
     st\<lparr>schedulerTimer := None, isPlaying := False, isRecording := False,
        metronomeInterval := None, beatInterval := None, barAdvancementInterval := None,
        intervals := drop_handle (barAdvancementInterval st)
                       (drop_handle (beatInterval st)
                          (drop_handle (metronomeInterval st)
                             (drop_handle (schedulerTimer st) (intervals st)))),
        scheduledEvents := {}, isEditMode := False,
        currentBar := 0, currentBeat := 1, performanceMode := True\<rparr>"
  by (cases st) (simp add: stopSequence_def stopTimers_eq clearInterval_def
      cleanupActiveSources_def exitEditMode_def drop_handle_def Let_def
      split: option.splits)

lemma startSequence_eq:
  "startSequence st =
     st\<lparr>scheduledEvents := {}, isPlaying := True,
        sequenceStartTime := clock st + 5 / 100, nextNoteTime := clock st + 5 / 100,
        currentBar := 0, currentBeat := 1,
        intervals := intervals st @ [nextTimerId st], nextTimerId := nextTimerId st + 1,
        schedulerTimer := Some (nextTimerId st)\<rparr>"
  by (simp add: startSequence_def cleanupActiveSources_def setInterval_def Let_def)

lemma startMetronome_eq:
  "startMetronome st =
     st\<lparr>currentBeat := 1, currentBar := 0,
        intervals := drop_handle (metronomeInterval st) (intervals st) @ [nextTimerId st],
        nextTimerId := nextTimerId st + 1,
        metronomeInterval := Some (nextTimerId st)\<rparr>"
  by (cases st) (simp add: startMetronome_def clearInterval_def setInterval_def drop_handle_def
      Let_def split: option.splits)

lemma startBarAdvancement_eq:
  "startBarAdvancement st =
     st\<lparr>currentBar := 0, currentBeat := 1,
        intervals := drop_handle (beatInterval st) (intervals st) @ [nextTimerId st],
        nextTimerId := nextTimerId st + 1,
        beatInterval := Some (nextTimerId st)\<rparr>"
  by (cases st) (simp add: startBarAdvancement_def clearInterval_def setInterval_def
      drop_handle_def Let_def split: option.splits)

lemma restartTimers_frame:
  "bpm (restartTimers st) = bpm st"
  "sequence (restartTimers st) = sequence st"
  by (simp_all add: restartTimers_def stopTimers_eq startMetronome_eq startBarAdvancement_eq
      Let_def)

subsection \<open>The tempo manager\<close>

lemma recalculateSequenceTiming_bpm: "bpm (recalculateSequenceTiming a b st) = bpm st"
  by (simp add: recalculateSequenceTiming_def Let_def setTimeout_def stopSequence_eq)

lemma changeTempo_bpm: "bpm (changeTempo c st) = max MIN_BPM (min MAX_BPM (bpm st + c))"
  by (simp add: changeTempo_def Let_def recalculateSequenceTiming_bpm restartTimers_frame)

lemma rescale_events_map: "rescale_events r es = map (scale_event r) es"
  by (induction es) (simp_all add: scale_event_def map_option_case)

lemma rescale_sequence_map: "rescale_sequence r s = map (map (scale_event r)) s"
  by (induction s) (simp_all add: rescale_events_map)

lemma recalculateSequenceTiming_sequence:
  "sequence (recalculateSequenceTiming a b st) =
     (if a = b then sequence st else map (map (scale_event (of_int a / of_int b))) (sequence st))"
  by (simp add: recalculateSequenceTiming_def Let_def setTimeout_def stopSequence_eq
      rescale_sequence_map)

lemma map_map_no_events:
  "\<not> list_ex (\<lambda>bar. bar \<noteq> []) s \<Longrightarrow> map (map f) s = s"
  by (induction s) simp_all

lemma changeTempo_sequence:
  "sequence (changeTempo c st) =
     (if bpm (changeTempo c st) = bpm st then sequence st
      else map (map (scale_event (of_int (bpm st) / of_int (bpm (changeTempo c st)))))
             (sequence st))"
  unfolding changeTempo_bpm
  by (auto simp add: changeTempo_def Let_def restartTimers_frame
      recalculateSequenceTiming_sequence hasRecordedSequence_def map_map_no_events)

lemma scale_event_inverse:
  "r * r' = 1 \<Longrightarrow> scale_event r' (scale_event r e) = e"
  by (cases "originalTime e") (simp_all add: scale_event_def mult.assoc)

text \<open>
  Claim C3: a rescale from \<open>a\<close> BPM to \<open>b\<close> BPM multiplies the \<open>time\<close> and the
  \<open>originalTime\<close> of every event of every bar by \<open>a / b\<close> and changes nothing else of an
  event; with \<open>a = b\<close> it is a no-op on the whole object. \<open>changeTempo\<close> does this with
  the tempo before and the clamped tempo after the change (a sequence without events
  is its own rescaled copy).
\<close>

theorem C3_rescale:
  "recalculateSequenceTiming b b st = st
   \<and> (a \<noteq> b \<longrightarrow>
        sequence (recalculateSequenceTiming a b st)
          = map (map (scale_event (of_int a / of_int b))) (sequence st))
   \<and> sequence (changeTempo c st)
       = (if bpm (changeTempo c st) = bpm st then sequence st
          else map (map (scale_event (of_int (bpm st) / of_int (bpm (changeTempo c st)))))
                 (sequence st))"
  using changeTempo_sequence[of c st]
  by (simp add: recalculateSequenceTiming_sequence) (simp add: recalculateSequenceTiming_def)

text \<open>The scenario of the specification: 1.0 s at 120 BPM becomes 2.0 s at 60 BPM.\<close>

theorem C3_rescale_witness:
  "(120::int) \<noteq> 60
   \<and> sequence (recalculateSequenceTiming 120 60
        (new_player\<lparr>sequence := [[\<lparr>pad = 3, time = 1, bank = ''A'', originalTime = Some 1,
                                      quantized = False, overdubbed = False\<rparr>], [], [], []]\<rparr>))
       = [[\<lparr>pad = 3, time = 2, bank = ''A'', originalTime = Some 2,
            quantized = False, overdubbed = False\<rparr>], [], [], []]
   \<and> sequence (changeTempo (- 60)
        (new_player\<lparr>sequence := [[\<lparr>pad = 3, time = 1, bank = ''A'', originalTime = Some 1,
                                      quantized = False, overdubbed = False\<rparr>], [], [], []]\<rparr>))
       = [[\<lparr>pad = 3, time = 2, bank = ''A'', originalTime = Some 2,
            quantized = False, overdubbed = False\<rparr>], [], [], []]"
proof -
  let ?st = "new_player\<lparr>sequence := [[\<lparr>pad = 3, time = 1, bank = ''A'', originalTime = Some 1,
                                      quantized = False, overdubbed = False\<rparr>], [], [], []]\<rparr>"
  have b: "bpm (changeTempo (- 60) ?st) = 60" "bpm ?st = 120"
    by (simp_all add: changeTempo_bpm new_player_def MIN_BPM_def MAX_BPM_def)
  show ?thesis
    using C3_rescale[of 60 ?st 120 "- 60"] b
    by (simp add: scale_event_def new_player_def)
qed

text \<open>
  Claim C8: for tempos other than zero, rescaling from \<open>a\<close> to \<open>b\<close> and back from \<open>b\<close>
  to \<open>a\<close> restores every event, exactly (the arithmetic of the model is exact; the
  rounding of doubles is not modelled).
\<close>

theorem C8_rescale_roundtrip:
  assumes "a \<noteq> 0" and "b \<noteq> 0"
  shows "sequence (recalculateSequenceTiming b a (recalculateSequenceTiming a b st))
           = sequence st"
proof -
  have "(of_int a / of_int b) * (of_int b / of_int a) = (1::rat)"
    using assms by simp
  then have "\<And>e. scale_event (of_int b / of_int a) (scale_event (of_int a / of_int b) e) = e"
    by (rule scale_event_inverse)
  then show ?thesis
    by (simp add: recalculateSequenceTiming_sequence comp_def)
qed

theorem C8_rescale_roundtrip_witness:
  "(120::int) \<noteq> 0 \<and> (90::int) \<noteq> 0
   \<and> sequence (recalculateSequenceTiming 120 90
        (new_player\<lparr>sequence := [[\<lparr>pad = 3, time = 1, bank = ''A'', originalTime = Some 1,
                                      quantized = False, overdubbed = False\<rparr>], [], [], []]\<rparr>))
       = [[\<lparr>pad = 3, time = 4 / 3, bank = ''A'', originalTime = Some (4 / 3),
            quantized = False, overdubbed = False\<rparr>], [], [], []]
   \<and> sequence (recalculateSequenceTiming 90 120 (recalculateSequenceTiming 120 90
        (new_player\<lparr>sequence := [[\<lparr>pad = 3, time = 1, bank = ''A'', originalTime = Some 1,
                                      quantized = False, overdubbed = False\<rparr>], [], [], []]\<rparr>)))
       = [[\<lparr>pad = 3, time = 1, bank = ''A'', originalTime = Some 1,
            quantized = False, overdubbed = False\<rparr>], [], [], []]"
proof -
  let ?st = "new_player\<lparr>sequence := [[\<lparr>pad = 3, time = 1, bank = ''A'', originalTime = Some 1,
                                      quantized = False, overdubbed = False\<rparr>], [], [], []]\<rparr>"
  have h1: "(120::int) \<noteq> 0" and h2: "(90::int) \<noteq> 0" by simp_all
  have mid: "sequence (recalculateSequenceTiming 120 90 ?st)
       = [[\<lparr>pad = 3, time = 4 / 3, bank = ''A'', originalTime = Some (4 / 3),
            quantized = False, overdubbed = False\<rparr>], [], [], []]"
    by (simp add: recalculateSequenceTiming_sequence scale_event_def new_player_def)
  show ?thesis
    using C8_rescale_roundtrip[OF h1 h2, of ?st] mid by (simp add: new_player_def)
qed

text \<open>
  Claim C9: whatever the tempo before and whatever the change, \<open>changeTempo\<close> leaves
  the tempo at the sum clamped to \<open>[MIN_BPM, MAX_BPM]\<close>, which is \<open>[60, 200]\<close>. The
  function is total: there is no error result.
\<close>

theorem C9_changeTempo_clamps:
  "bpm (changeTempo change st) = max 60 (min 200 (bpm st + change))
   \<and> MIN_BPM \<le> bpm (changeTempo change st) \<and> bpm (changeTempo change st) \<le> MAX_BPM
   \<and> MIN_BPM = 60 \<and> MAX_BPM = 200"
  by (simp add: changeTempo_bpm MIN_BPM_def MAX_BPM_def)

subsection \<open>The recorder\<close>

text \<open>
  What holds of the times that are stored. A recording appends one event to the current
  bar, with the time \<open>recorded_time\<close>. That time is below the bar duration in magnitude;
  it is in \<open>[0, barDuration)\<close> when the clock has reached the origin it is measured
  from. A rescale from \<open>a\<close> to \<open>b\<close> BPM maps a time in the bar of \<open>a\<close> BPM into the
  bar of \<open>b\<close> BPM.
\<close>

lemma recordPadEvent_stores:
  assumes "recordPadEvent p st = Inr st'"
  shows "0 \<le> currentBar st \<and> currentBar st < int (length (sequence st))
       \<and> sequence st' =
           (sequence st)[nat (currentBar st) :=
              sequence st ! nat (currentBar st)
              @ [\<lparr>pad = p, time = recorded_time st, bank = currentBank st,
                   originalTime = Some (js_rem (clock st - (if isOverdubbing st
                                                            then overdubStartTime st
                                                            else sequenceStartTime st))
                                          (barDuration st)),
                   quantized = quantizeMode st, overdubbed = isOverdubbing st\<rparr>]]"
  using assms
  by (auto simp add: recordPadEvent_def recorded_time_def barDuration_def sequence_at_def Let_def
      split: if_splits)

lemma recorded_time_abs_less:
  assumes "0 < bpm st"
  shows "\<bar>recorded_time st\<bar> < barDuration st"
  using assms
  by (simp add: recorded_time_def Let_def quantizeTime_abs_less js_rem_abs_less barDuration_pos)

lemma recorded_time_range:
  assumes "0 < bpm st" "0 < gridStepsPerBeat st"
      and "0 \<le> quantizeStrength st" "quantizeStrength st \<le> 1"
      and "(if isOverdubbing st then overdubStartTime st else sequenceStartTime st) \<le> clock st"
  shows "0 \<le> recorded_time st \<and> recorded_time st < barDuration st"
proof -
  let ?r = "js_rem (clock st - (if isOverdubbing st then overdubStartTime st
                                else sequenceStartTime st)) (barDuration st)"
  have r: "0 \<le> ?r \<and> ?r < barDuration st"
    using assms(5) by (intro js_rem_nonneg_range barDuration_pos[OF assms(1)]) simp
  show ?thesis
  proof (cases "quantizeMode st")
    case True
    then show ?thesis
      using quantizeTime_nonneg_range[OF assms(1-4), of ?r] r
      by (simp add: recorded_time_def Let_def)
  next
    case False
    then show ?thesis using r by (simp add: recorded_time_def Let_def)
  qed
qed

lemma scale_event_range:
  assumes "0 < a" "0 < b"
      and "0 \<le> time e" "time e < 60 / of_int a * of_int BEATS_PER_BAR"
  shows "0 \<le> time (scale_event (of_int a / of_int b) e)
       \<and> time (scale_event (of_int a / of_int b) e) < 60 / of_int b * of_int BEATS_PER_BAR"
proof -
  have t: "time (scale_event (of_int a / of_int b) e) = time e * (of_int a / of_int b)"
    by (simp add: scale_event_def)
  have r: "0 < (of_int a / of_int b :: rat)" using assms(1,2) by simp
  have lo: "0 \<le> time e * (of_int a / of_int b)"
    using assms(3) r by (intro mult_nonneg_nonneg) simp_all
  have "time e * (of_int a / of_int b)
          < 60 / of_int a * of_int BEATS_PER_BAR * (of_int a / of_int b)"
    using assms(4) r by (rule mult_strict_right_mono)
  also have "\<dots> = 60 / of_int b * of_int BEATS_PER_BAR"
    using assms(1) by simp
  finally show ?thesis using lo t by simp
qed

text \<open>
  Claim C7 says that a recording stores a time in \<open>[0, barDuration)\<close>. The remainder of
  JavaScript keeps the sign of the dividend, and \<open>startSequence\<close> puts the origin of the
  sequence 50 ms after the clock. So a pad recorded within those 50 ms gets a negative
  time. Here the audio clock is at 10 s when playback starts, \<open>startRecording\<close> follows
  10 ms later, and the pad is recorded another 10 ms later, at the default 120 BPM with
  the default quantization strength 0.5: the stored time is -0.015 s.
\<close>

theorem C7_recorded_time_negative:
  "map_sum id sequence
     (recordPadEvent 3
        (elapse (1 / 100) (startRecording (elapse (1 / 100)
           (startSequence (new_player\<lparr>clock := 10\<rparr>))))))
   = Inr [[\<lparr>pad = 3, time = - 3 / 200, bank = ''A'', originalTime = Some (- 3 / 100),
            quantized = True, overdubbed = False\<rparr>], [], [], []]"
  by code_simp

subsection \<open>The dispatcher\<close>

lemma selectBank_frame:
  "scheduledEvents (selectBank b st) = scheduledEvents st"
  "playPadCalls (selectBank b st) = playPadCalls st"
  "timeouts (selectBank b st) = timeouts st"
  "clock (selectBank b st) = clock st"
  "bpm (selectBank b st) = bpm st"
  "sequence (selectBank b st) = sequence st"
  "sequenceStartTime (selectBank b st) = sequenceStartTime st"
  "nextNoteTime (selectBank b st) = nextNoteTime st"
  "dispatched (selectBank b st) = dispatched st"
  by (simp_all add: selectBank_def deactivateDeletePadMode_def exitEditMode_def Let_def)

lemma triggerScheduled_frame:
  "clock (triggerScheduled ev w st) = clock st"
  "bpm (triggerScheduled ev w st) = bpm st"
  "sequence (triggerScheduled ev w st) = sequence st"
  "sequenceStartTime (triggerScheduled ev w st) = sequenceStartTime st"
  "nextNoteTime (triggerScheduled ev w st) = nextNoteTime st"
  "dispatched (triggerScheduled ev w st) = dispatched st"
  by (simp_all add: triggerScheduled_def Let_def setTimeout_def playPad_def selectBank_frame)

lemma triggerScheduled_scheduledEvents:
  "scheduledEvents (triggerScheduled ev w st) = insert (eventKey st ev w) (scheduledEvents st)"
  by (auto simp add: triggerScheduled_def Let_def setTimeout_def playPad_def selectBank_frame)

lemma triggerScheduled_playPadCalls:
  "playPadCalls (triggerScheduled ev w st) =
     (if eventKey st ev w \<in> scheduledEvents st then playPadCalls st
      else playPadCalls st @ [(pad ev, w)])"
  by (simp add: triggerScheduled_def Let_def setTimeout_def playPad_def selectBank_frame)

lemma triggerScheduled_timeouts:
  "timeouts (triggerScheduled ev w st) =
     timeouts st @
       (if eventKey st ev w \<in> scheduledEvents st then []
        else (clock st + 1, DeleteKey (eventKey st ev w))
             # (if bank ev \<noteq> [] \<and> bank ev \<noteq> currentBank st
                then [(clock st, SelectBank (currentBank st))] else []))"
  by (simp add: triggerScheduled_def Let_def setTimeout_def playPad_def selectBank_frame)

lemma triggerScheduled_duplicate:
  "eventKey st ev w \<in> scheduledEvents st \<Longrightarrow> triggerScheduled ev w st = st"
  by (simp add: triggerScheduled_def Let_def)

lemma preCount_frame:
  "scheduledEvents (preCount n b st) = scheduledEvents st"
  "playPadCalls (preCount n b st) = playPadCalls st"
  by (simp_all add: preCount_def setTimeout_def startBarAdvancement_eq)

lemma fire_playPadCalls: "playPadCalls (fire a st) = playPadCalls st"
  by (cases a) (simp_all add: fire_def selectBank_frame startSequence_eq preCount_frame)

lemma fire_keeps_key:
  "a \<noteq> DeleteKey k \<Longrightarrow> a \<noteq> StartSequence \<Longrightarrow> k \<in> scheduledEvents st
     \<Longrightarrow> k \<in> scheduledEvents (fire a st)"
  by (cases a) (auto simp add: fire_def selectBank_frame preCount_frame)

lemma fold_fire_playPadCalls:
  "playPadCalls (fold (\<lambda>(t, a). fire a) due st) = playPadCalls st"
  by (induction due arbitrary: st) (simp_all add: fire_playPadCalls split: prod.splits)

lemma fold_fire_keeps_key:
  "\<forall>(t, a) \<in> set due. a \<noteq> DeleteKey k \<and> a \<noteq> StartSequence \<Longrightarrow> k \<in> scheduledEvents st
     \<Longrightarrow> k \<in> scheduledEvents (fold (\<lambda>(t, a). fire a) due st)"
proof (induction due arbitrary: st)
  case Nil
  then show ?case by simp
next
  case (Cons x due)
  obtain t a where x: "x = (t, a)" by (cases x)
  from Cons.prems(1) x have a: "a \<noteq> DeleteKey k" "a \<noteq> StartSequence" by auto
  have "k \<in> scheduledEvents (fire a st)"
    using a Cons.prems(2) by (rule fire_keeps_key)
  moreover have "\<forall>(t, a) \<in> set due. a \<noteq> DeleteKey k \<and> a \<noteq> StartSequence"
    using Cons.prems(1) by simp
  ultimately show ?case using Cons.IH[of "fire a st"] by (simp add: x)
qed

lemma elapse_playPadCalls: "playPadCalls (elapse d st) = playPadCalls st"
  by (simp add: elapse_def Let_def fold_fire_playPadCalls)

lemma elapse_keeps_key:
  assumes "k \<in> scheduledEvents st"
      and "\<forall>(t, a) \<in> set (timeouts st). t \<le> clock st + d \<longrightarrow> a \<noteq> DeleteKey k \<and> a \<noteq> StartSequence"
  shows "k \<in> scheduledEvents (elapse d st)"
proof -
  have "\<forall>(t, a) \<in> set (sort_key fst (filter (\<lambda>(t, a). t \<le> clock st + d) (timeouts st))).
          a \<noteq> DeleteKey k \<and> a \<noteq> StartSequence"
    using assms(2) by auto
  then show ?thesis
    unfolding elapse_def Let_def
    by (intro fold_fire_keeps_key) (simp_all add: assms(1))
qed

text \<open>
  Claim C2: a call of \<open>triggerScheduled\<close> whose key is not in the set, followed within
  the time to live of one second by a call that computes the same key (same pad, same
  bank, \<open>when\<close> with the same \<open>toFixed(3)\<close>), makes exactly one call of \<open>playPad\<close>, the
  one of the first call; the second call changes nothing at all. Between the two calls
  time passes and pending callbacks run; the only ones that could take the key out again
  are a removal of this very key left over from an earlier dispatch and a restart of the
  sequence, and none of those is due in between.
\<close>

theorem C2_dispatch_dedup:
  assumes fresh: "eventKey st ev w \<notin> scheduledEvents st"
      and same: "eventKey (elapse d (triggerScheduled ev w st)) ev' w' = eventKey st ev w"
      and ttl: "0 \<le> d" "d < 1"
      and quiet: "\<forall>(t, a) \<in> set (timeouts st).
                    t \<le> clock st + d \<longrightarrow> a \<noteq> DeleteKey (eventKey st ev w) \<and> a \<noteq> StartSequence"
  shows "triggerScheduled ev' w' (elapse d (triggerScheduled ev w st))
           = elapse d (triggerScheduled ev w st)
       \<and> playPadCalls (triggerScheduled ev' w' (elapse d (triggerScheduled ev w st)))
           = playPadCalls st @ [(pad ev, w)]"
proof -
  let ?k = "eventKey st ev w"
  let ?st1 = "triggerScheduled ev w st"
  let ?st2 = "elapse d ?st1"
  have k1: "?k \<in> scheduledEvents ?st1"
    by (simp add: triggerScheduled_scheduledEvents)
  have q1: "\<forall>(t, a) \<in> set (timeouts ?st1).
              t \<le> clock ?st1 + d \<longrightarrow> a \<noteq> DeleteKey ?k \<and> a \<noteq> StartSequence"
    using quiet ttl(2) fresh
    by (auto simp add: triggerScheduled_timeouts triggerScheduled_frame)
  have k2: "?k \<in> scheduledEvents ?st2"
    using k1 q1 by (rule elapse_keeps_key)
  then have dup: "triggerScheduled ev' w' ?st2 = ?st2"
    using same by (intro triggerScheduled_duplicate) simp
  have "playPadCalls ?st2 = playPadCalls st @ [(pad ev, w)]"
    using fresh by (simp add: elapse_playPadCalls triggerScheduled_playPadCalls)
  then show ?thesis using dup by simp
qed

text \<open>
  The witness switches banks: the player is on bank A, the event is of bank B, the second
  start time 10.5004 has the same three decimals as the first, 10.5, and half a second
  lies between the calls.
\<close>

theorem C2_dispatch_dedup_witness:
  "eventKey (new_player\<lparr>clock := 10\<rparr>) (example_event (1 / 2)\<lparr>bank := ''B''\<rparr>) (21 / 2)
     \<notin> scheduledEvents (new_player\<lparr>clock := 10\<rparr>)
   \<and> eventKey (elapse (1 / 2) (triggerScheduled (example_event (1 / 2)\<lparr>bank := ''B''\<rparr>) (21 / 2)
                 (new_player\<lparr>clock := 10\<rparr>)))
        (example_event (1 / 2)\<lparr>bank := ''B''\<rparr>) (105004 / 10000)
       = eventKey (new_player\<lparr>clock := 10\<rparr>) (example_event (1 / 2)\<lparr>bank := ''B''\<rparr>) (21 / 2)
   \<and> (0::rat) \<le> 1 / 2 \<and> (1 / 2 :: rat) < 1
   \<and> timeouts (new_player\<lparr>clock := 10\<rparr>) = []
   \<and> playPadCalls
        (triggerScheduled (example_event (1 / 2)\<lparr>bank := ''B''\<rparr>) (105004 / 10000)
           (elapse (1 / 2) (triggerScheduled (example_event (1 / 2)\<lparr>bank := ''B''\<rparr>) (21 / 2)
              (new_player\<lparr>clock := 10\<rparr>))))
       = [(3, 21 / 2)]"
proof -
  let ?st = "new_player\<lparr>clock := 10\<rparr>"
  let ?ev = "example_event (1 / 2)\<lparr>bank := ''B''\<rparr>"
  have tf: "toFixed3 (105004 / 10000) = toFixed3 (21 / 2)"
    by code_simp
  have h1: "eventKey ?st ?ev (21 / 2) \<notin> scheduledEvents ?st"
    by (simp add: new_player_def)
  have h2: "eventKey (elapse (1 / 2) (triggerScheduled ?ev (21 / 2) ?st)) ?ev (105004 / 10000)
              = eventKey ?st ?ev (21 / 2)"
    using tf by (simp add: eventKey_def example_event_def)
  have h3: "(0::rat) \<le> 1 / 2" and h4: "(1 / 2 :: rat) < 1" by simp_all
  have h5: "\<forall>(t, a) \<in> set (timeouts ?st).
              t \<le> clock ?st + 1 / 2 \<longrightarrow>
              a \<noteq> DeleteKey (eventKey ?st ?ev (21 / 2)) \<and> a \<noteq> StartSequence"
    by (simp add: new_player_def)
  have p: "playPadCalls ?st = []" "pad ?ev = 3"
    by (simp_all add: new_player_def example_event_def)
  have c: "playPadCalls (triggerScheduled ?ev (105004 / 10000)
             (elapse (1 / 2) (triggerScheduled ?ev (21 / 2) ?st)))
           = playPadCalls ?st @ [(pad ?ev, 21 / 2)]"
    using C2_dispatch_dedup[OF h1 h2 h3 h4 h5] by (rule conjunct2)
  have c': "playPadCalls (triggerScheduled ?ev (105004 / 10000)
             (elapse (1 / 2) (triggerScheduled ?ev (21 / 2) ?st)))
           = [(3, 21 / 2)]"
    unfolding c p by simp
  have h6: "timeouts ?st = []"
    by (simp add: new_player_def)
  show ?thesis
    using h1 h2 h3 h4 h6 c' by blast
qed

subsection \<open>The scheduler tick\<close>


































lemma example_playing_eq:
  "example_playing =
     new_player\<lparr>clock := 1005 / 100,
       sequence := [[example_event 0, example_event (6 / 100), example_event (1 / 2)], [], [], []],
       scheduledEvents := {}, isPlaying := True,
       sequenceStartTime := 1005 / 100, nextNoteTime := 1005 / 100,
       currentBar := 0, currentBeat := 1,
       intervals := [1], nextTimerId := 2, schedulerTimer := Some 1\<rparr>"
  by (simp add: example_playing_def elapse_def startSequence_eq new_player_def)




subsection \<open>Starting and stopping\<close>

text \<open>
  Claim C6, as stated: \<open>startSequence\<close> while running and \<open>stopSequence\<close> while stopped
  are no-ops. Neither is. Two seconds into a playback, \<open>startSequence\<close> moves the origin
  of the sequence; and on a stopped player that is recording, \<open>stopSequence\<close> ends the
  recording.
\<close>

theorem C6_noop_counterexample:
  "isPlaying (elapse 2 (startSequence new_player))
   \<and> schedulerTimer (elapse 2 (startSequence new_player)) \<noteq> None
   \<and> startSequence (elapse 2 (startSequence new_player)) \<noteq> elapse 2 (startSequence new_player)
   \<and> \<not> isPlaying (startRecording new_player)
   \<and> schedulerTimer (startRecording new_player) = None
   \<and> stopSequence (startRecording new_player) \<noteq> startRecording new_player"
proof -
  let ?run = "elapse 2 (startSequence new_player)"
  let ?rec = "startRecording new_player"
  have run: "?run = (startSequence new_player)\<lparr>clock := 2\<rparr>"
    by (simp add: elapse_def startSequence_eq new_player_def)
  have r1: "isPlaying ?run" "schedulerTimer ?run \<noteq> None" "sequenceStartTime ?run = 5 / 100"
    unfolding run by (simp_all add: startSequence_eq new_player_def)
  have r2: "sequenceStartTime (startSequence ?run) = 2 + 5 / 100"
    unfolding run by (simp add: startSequence_eq)
  have r3: "startSequence ?run \<noteq> ?run"
  proof
    assume "startSequence ?run = ?run"
    then have "sequenceStartTime (startSequence ?run) = sequenceStartTime ?run" by simp
    then show False unfolding r2 r1(3) by simp
  qed
  have s1: "\<not> isPlaying ?rec" "schedulerTimer ?rec = None" "isRecording ?rec"
    by (simp_all add: startRecording_def startPrecount_def preCount_def startMetronome_eq
        setTimeout_def Let_def new_player_def PRE_COUNT_BARS_def BEATS_PER_BAR_def)
  have s2: "stopSequence ?rec \<noteq> ?rec"
  proof
    assume "stopSequence ?rec = ?rec"
    then have "isRecording (stopSequence ?rec) = isRecording ?rec" by simp
    then show False using s1(3) by (simp add: stopSequence_eq)
  qed
  show ?thesis using r1(1,2) r3 s1(1,2) s2 by simp
qed

lemma set_drop_handle:
  "set (drop_handle x xs) = set xs - (case x of Some h \<Rightarrow> {h} | None \<Rightarrow> {})"
  by (cases x) (simp_all add: drop_handle_def)

lemma stopSequence_intervals:
  "intervals (stopSequence st) =
     drop_handle (barAdvancementInterval st)
       (drop_handle (beatInterval st)
          (drop_handle (metronomeInterval st)
             (drop_handle (schedulerTimer st) (intervals st))))"
  by (simp add: stopSequence_eq)

lemma stopSequence_clears_handles:
  assumes "Some h \<in> {schedulerTimer st, metronomeInterval st, beatInterval st,
                      barAdvancementInterval st}"
  shows "h \<notin> set (intervals (stopSequence st))"
  unfolding stopSequence_intervals
  using assms
  by (auto simp add: set_drop_handle split: option.splits)

text \<open>
  Claim C6, amended: neither function has an error result. \<open>startSequence\<close>, on a
  running player as on any other, empties the
  de-duplication set, sets \<open>isPlaying\<close>, puts the origin of the sequence and the cursor
  \<open>nextNoteTime\<close> at the clock plus 50 ms, sets bar and beat to 0 and 1, and stores in
  \<open>schedulerTimer\<close> the handle of an interval that is live; it changes no other field
  of the player but the timer bookkeeping. \<open>stopSequence\<close>, on a stopped player as on any
  other, sets \<open>schedulerTimer\<close> to null and \<open>isPlaying\<close> and \<open>isRecording\<close> to false,
  clears the handles of the metronome, beat and bar intervals, empties the
  de-duplication set, leaves edit mode, sets bar and beat to 0 and 1 and switches to
  performance mode; the intervals whose handles \<open>schedulerTimer\<close> and the three other
  fields held are no longer live; it changes no other field but the set of live
  intervals. A second \<open>stopSequence\<close> right after a first changes nothing.
\<close>

theorem C6_start_stop_effects:
  "startSequence st =
     st\<lparr>scheduledEvents := {}, isPlaying := True,
        sequenceStartTime := clock st + 5 / 100, nextNoteTime := clock st + 5 / 100,
        currentBar := 0, currentBeat := 1,
        intervals := intervals (startSequence st),
        nextTimerId := nextTimerId (startSequence st),
        schedulerTimer := schedulerTimer (startSequence st)\<rparr>
   \<and> (\<exists>h. schedulerTimer (startSequence st) = Some h \<and> h \<in> set (intervals (startSequence st)))
   \<and> stopSequence st =
       st\<lparr>schedulerTimer := None, isPlaying := False, isRecording := False,
          metronomeInterval := None, beatInterval := None, barAdvancementInterval := None,
          intervals := intervals (stopSequence st),
          scheduledEvents := {}, isEditMode := False,
          currentBar := 0, currentBeat := 1, performanceMode := True\<rparr>
   \<and> (\<forall>h. Some h \<in> {schedulerTimer st, metronomeInterval st, beatInterval st,
                        barAdvancementInterval st}
          \<longrightarrow> h \<notin> set (intervals (stopSequence st)))
   \<and> stopSequence (stopSequence st) = stopSequence st"
proof (intro conjI)
  show "startSequence st =
     st\<lparr>scheduledEvents := {}, isPlaying := True,
        sequenceStartTime := clock st + 5 / 100, nextNoteTime := clock st + 5 / 100,
        currentBar := 0, currentBeat := 1,
        intervals := intervals (startSequence st),
        nextTimerId := nextTimerId (startSequence st),
        schedulerTimer := schedulerTimer (startSequence st)\<rparr>"
    by (simp add: startSequence_eq)
  show "\<exists>h. schedulerTimer (startSequence st) = Some h \<and> h \<in> set (intervals (startSequence st))"
    by (simp add: startSequence_eq)
  show "stopSequence st =
       st\<lparr>schedulerTimer := None, isPlaying := False, isRecording := False,
          metronomeInterval := None, beatInterval := None, barAdvancementInterval := None,
          intervals := intervals (stopSequence st),
          scheduledEvents := {}, isEditMode := False,
          currentBar := 0, currentBeat := 1, performanceMode := True\<rparr>"
    by (simp add: stopSequence_eq)
  show "\<forall>h. Some h \<in> {schedulerTimer st, metronomeInterval st, beatInterval st,
                        barAdvancementInterval st}
          \<longrightarrow> h \<notin> set (intervals (stopSequence st))"
    using stopSequence_clears_handles by blast
  show "stopSequence (stopSequence st) = stopSequence st"
    by (simp add: stopSequence_eq)
qed

text \<open>
  The witness: a running player, whose tick interval 1 is cleared, and a stopped player
  that is recording, whose metronome interval 1 is cleared and whose recording is ended.
\<close>

lemma startRecording_new_player:
  "startRecording new_player =
     new_player\<lparr>isRecording := True, metronomeInterval := Some 1, intervals := [1],
                 nextTimerId := 2, timeouts := [(1 / 2, PreCount 3 (1 / 2))]\<rparr>"
  by (simp add: startRecording_def startPrecount_def preCount_def startMetronome_eq
      setTimeout_def Let_def new_player_def PRE_COUNT_BARS_def BEATS_PER_BAR_def BAR_COUNT_def
      eval_nat_numeral)

theorem C6_start_stop_effects_witness:
  "schedulerTimer example_playing = Some 1
   \<and> 1 \<notin> set (intervals (stopSequence example_playing))
   \<and> \<not> isPlaying (stopSequence example_playing)
   \<and> metronomeInterval (startRecording new_player) = Some 1
   \<and> isRecording (startRecording new_player)
   \<and> 1 \<notin> set (intervals (stopSequence (startRecording new_player)))
   \<and> \<not> isRecording (stopSequence (startRecording new_player))"
proof -
  have a: "schedulerTimer example_playing = Some 1"
    by (simp add: example_playing_eq)
  have b: "metronomeInterval (startRecording new_player) = Some 1"
          "isRecording (startRecording new_player)"
    by (simp_all add: startRecording_new_player)
  from C6_start_stop_effects[of example_playing]
  have c: "\<forall>h. Some h \<in> {schedulerTimer example_playing, metronomeInterval example_playing,
                          beatInterval example_playing, barAdvancementInterval example_playing}
             \<longrightarrow> h \<notin> set (intervals (stopSequence example_playing))"
    and d: "stopSequence example_playing =
       example_playing\<lparr>schedulerTimer := None, isPlaying := False, isRecording := False,
          metronomeInterval := None, beatInterval := None, barAdvancementInterval := None,
          intervals := intervals (stopSequence example_playing),
          scheduledEvents := {}, isEditMode := False,
          currentBar := 0, currentBeat := 1, performanceMode := True\<rparr>"
    by blast+
  from C6_start_stop_effects[of "startRecording new_player"]
  have e: "\<forall>h. Some h \<in> {schedulerTimer (startRecording new_player),
                          metronomeInterval (startRecording new_player),
                          beatInterval (startRecording new_player),
                          barAdvancementInterval (startRecording new_player)}
             \<longrightarrow> h \<notin> set (intervals (stopSequence (startRecording new_player)))"
    and f: "stopSequence (startRecording new_player) =
       (startRecording new_player)\<lparr>schedulerTimer := None, isPlaying := False,
          isRecording := False,
          metronomeInterval := None, beatInterval := None, barAdvancementInterval := None,
          intervals := intervals (stopSequence (startRecording new_player)),
          scheduledEvents := {}, isEditMode := False,
          currentBar := 0, currentBeat := 1, performanceMode := True\<rparr>"
    by blast+
  have c': "1 \<notin> set (intervals (stopSequence example_playing))"
    using c a by simp
  have d': "\<not> isPlaying (stopSequence example_playing)"
    by (subst d) simp
  have e': "1 \<notin> set (intervals (stopSequence (startRecording new_player)))"
    using e b(1) by simp
  have f': "\<not> isRecording (stopSequence (startRecording new_player))"
    by (subst f) simp
  show ?thesis using a b c' d' e' f' by blast
qed

text \<open>
  What holds of the two flags after \<open>stopSequence\<close>, and what \<open>stopSequence\<close> leaves as
  it was; \<open>stopRecording\<close> does reset \<open>isOverdubbing\<close>.
\<close>

lemma stopSequence_flags:
  "\<not> isRecording (stopSequence st) \<and> \<not> isPlaying (stopSequence st)"
  by (simp add: stopSequence_eq)

lemma stopSequence_keeps:
  "isOverdubbing (stopSequence st) = isOverdubbing st"
  "overdubStartTime (stopSequence st) = overdubStartTime st"
  "timeouts (stopSequence st) = timeouts st"
  by (simp_all add: stopSequence_eq)

lemma stopRecording_isOverdubbing: "\<not> isOverdubbing (stopRecording st)"
  by (simp add: stopRecording_def stopTimers_eq Let_def)

lemma example_overdubbing_eq:
  "example_overdubbing =
     new_player\<lparr>clock := 21 / 2, sequence := [[example_event (1 / 2)], [], [], []],
       isRecording := True, isOverdubbing := True, overdubStartTime := 21 / 2,
       metronomeInterval := Some 1, intervals := [1], nextTimerId := 2,
       timeouts := [(11, PreCount 3 (1 / 2))]\<rparr>"
  by (simp add: example_overdubbing_def startOverdub_def hasRecordedSequence_def
      startPrecount_def preCount_def startMetronome_eq
      setTimeout_def Let_def new_player_def PRE_COUNT_BARS_def BEATS_PER_BAR_def)

text \<open>
  Claim C10 says that \<open>stopSequence\<close> leaves \<open>isRecording\<close> and \<open>isPlaying\<close> false and so
  terminates a recording or overdub session in progress. The flags are false, but an
  overdub session is not over: on a player on which \<open>startOverdub\<close> has just been called,
  \<open>stopSequence\<close> leaves \<open>isOverdubbing\<close> set and the pre-count callback pending, where
  \<open>stopRecording\<close> resets \<open>isOverdubbing\<close>. A recording started afterwards with
  \<open>startRecording\<close> then takes the overdub branch of \<open>recordPadEvent\<close>: the pad hit
  0.3 s later, at 10.8 s, is stored as overdubbed, with the original time 0.3 s measured
  from the start of the abandoned overdub (from the origin of the sequence it would be
  0.8 s).
\<close>

theorem C10_stopSequence_keeps_overdub:
  "isRecording example_overdubbing \<and> isOverdubbing example_overdubbing
   \<and> timeouts example_overdubbing = [(11, PreCount 3 (1 / 2))]
   \<and> \<not> isRecording (stopSequence example_overdubbing)
   \<and> \<not> isPlaying (stopSequence example_overdubbing)
   \<and> isOverdubbing (stopSequence example_overdubbing)
   \<and> timeouts (stopSequence example_overdubbing) = [(11, PreCount 3 (1 / 2))]
   \<and> \<not> isOverdubbing (stopRecording example_overdubbing)
   \<and> map_sum id sequence
        (recordPadEvent 3 (elapse (3 / 10) (startRecording (stopSequence example_overdubbing))))
       = Inr [[\<lparr>pad = 3, time = 11 / 40, bank = ''A'', originalTime = Some (3 / 10),
                quantized = True, overdubbed = True\<rparr>], [], [], []]"
proof -
  have r: "map_sum id sequence
        (recordPadEvent 3 (elapse (3 / 10) (startRecording (stopSequence example_overdubbing))))
       = Inr [[\<lparr>pad = 3, time = 11 / 40, bank = ''A'', originalTime = Some (3 / 10),
                quantized = True, overdubbed = True\<rparr>], [], [], []]"
    by code_simp
  show ?thesis
    using r
    by (simp add: stopSequence_flags stopSequence_keeps stopRecording_isOverdubbing)
       (simp add: example_overdubbing_eq)
qed

end
